theory Spec2Isabelle
  imports Complex_Main
begin

section \<open>Data model\<close>

text \<open>
  JavaScript numbers are modelled as reals, with exact arithmetic and exact comparisons.
  \<open>Math.PI\<close> is not \<open>\<pi>\<close> but the double nearest to it, modelled by its exact value
  \<open>Math_PI\<close> below; \<open>Math.sin\<close> and \<open>Math.cos\<close> are the sine and cosine of their
  argument, without the last rounding to a double.
  A three-element array \<open>[x, y, z]\<close> is a triple.
\<close>

type_synonym vec3 = "real \<times> real \<times> real"

text \<open>
  \<open>type Annotation = { id, position, title, description }\<close> (App.tsx, ModelViewer.tsx).
  The field \<open>id\<close> is written \<open>id_ann\<close>, since \<open>id\<close> is HOL's identity function.
\<close>

record Annotation =
  id_ann :: string
  position :: vec3
  title :: string
  description :: string

text \<open>
  The React state the annotation handlers read and write: \<open>annotations\<close> (held by
  \<open>App\<close>), and \<open>placing\<close>, \<open>draggingId\<close>, \<open>dragOverPoint\<close> (held by \<open>ModelViewer\<close>).
  \<open>null\<close> is \<^const>\<open>None\<close>.
\<close>

record session =
  annotations :: "Annotation list"
  placing :: bool
  draggingId :: "string option"
  dragOverPoint :: "vec3 option"

text \<open>The initial values of the four \<open>useState\<close> cells.\<close>

definition initial :: session where
  "initial = \<lparr>annotations = [], placing = False, draggingId = None, dragOverPoint = None\<rparr>"

section \<open>Annotation handlers\<close>

text \<open>\<open>startPlacing = () => setPlacing(true)\<close>\<close>

definition startPlacing :: "session \<Rightarrow> session" where
  "startPlacing s = s\<lparr>placing := True\<rparr>"

text \<open>
  \<open>handleSceneClick\<close>: returns at once unless \<open>placing\<close>; otherwise appends a new record
  and resets \<open>placing\<close>. The result of the library call \<open>uuidv4()\<close> is the parameter
  \<open>uuid\<close>, and \<open>e.point\<close> is the parameter \<open>point\<close>.
\<close>

definition handleSceneClick :: "string \<Rightarrow> vec3 \<Rightarrow> session \<Rightarrow> session" where
  "handleSceneClick uuid point s =
     (if \<not> placing s then s
      else s\<lparr>annotations := annotations s @
                 [\<lparr>id_ann = uuid, position = point,
                   title = ''New Annotation'', description = ''''\<rparr>],
             placing := False\<rparr>)"

text \<open>\<open>handleEditAnnotation\<close>: \<open>a.map(ann => ann.id === id ? { ...ann, title, description } : ann)\<close>\<close>

definition handleEditAnnotation :: "string \<Rightarrow> string \<Rightarrow> string \<Rightarrow> session \<Rightarrow> session" where
  "handleEditAnnotation i t d s =
     s\<lparr>annotations :=
         map (\<lambda>ann. if id_ann ann = i then ann\<lparr>title := t, description := d\<rparr> else ann)
           (annotations s)\<rparr>"

text \<open>\<open>handleDeleteAnnotation\<close>: \<open>a.filter(ann => ann.id !== id)\<close>\<close>

definition handleDeleteAnnotation :: "string \<Rightarrow> session \<Rightarrow> session" where
  "handleDeleteAnnotation i s =
     s\<lparr>annotations := filter (\<lambda>ann. id_ann ann \<noteq> i) (annotations s)\<rparr>"

text \<open>\<open>handleMarkerPointerDown(id)\<close>: \<open>setDraggingId(id); setDragOverPoint(null)\<close>\<close>

definition handleMarkerPointerDown :: "string \<Rightarrow> session \<Rightarrow> session" where
  "handleMarkerPointerDown i s = s\<lparr>draggingId := Some i, dragOverPoint := None\<rparr>"

text \<open>
  \<open>handleMarkerPointerUp(id)\<close>: when \<open>draggingId === id && dragOverPoint\<close>, the position
  of every record with that id becomes \<open>dragOverPoint\<close>; then both drag cells are
  cleared, whether or not the position was written.
\<close>

definition handleMarkerPointerUp :: "string \<Rightarrow> session \<Rightarrow> session" where
  "handleMarkerPointerUp i s =
     (let s' = (case dragOverPoint s of
                  None \<Rightarrow> s
                | Some p \<Rightarrow>
                    if draggingId s = Some i
                    then s\<lparr>annotations :=
                           map (\<lambda>ann. if id_ann ann = i then ann\<lparr>position := p\<rparr> else ann)
                             (annotations s)\<rparr>
                    else s)
      in s'\<lparr>draggingId := None, dragOverPoint := None\<rparr>)"

text \<open>\<open>handleMarkerPointerMove(id)\<close>: \<open>if (draggingId === id) setDragOverPoint(point)\<close>\<close>

definition handleMarkerPointerMove :: "string \<Rightarrow> vec3 \<Rightarrow> session \<Rightarrow> session" where
  "handleMarkerPointerMove i point s =
     (if draggingId s = Some i then s\<lparr>dragOverPoint := Some point\<rparr> else s)"

text \<open>
  JavaScript truthiness of a \<open>string | null\<close>: \<open>null\<close> and the empty string are falsy.
\<close>

definition truthy :: "string option \<Rightarrow> bool" where
  "truthy d = (case d of None \<Rightarrow> False | Some x \<Rightarrow> x \<noteq> [])"

text \<open>\<open>handleScenePointerMove\<close>: \<open>if (draggingId) setDragOverPoint(point)\<close>\<close>

definition handleScenePointerMove :: "vec3 \<Rightarrow> session \<Rightarrow> session" where
  "handleScenePointerMove point s =
     (if truthy (draggingId s) then s\<lparr>dragOverPoint := Some point\<rparr> else s)"

subsection \<open>The session as a transition system\<close>

text \<open>
  One constructor for each handler the user interface can fire. The three marker events
  come from a marker that is drawn, that is, from a record of the current list.
\<close>

datatype event =
    StartPlacing
  | SceneClick string vec3
  | EditAnnotation string string string
  | DeleteAnnotation string
  | MarkerPointerDown string
  | MarkerPointerUp string
  | MarkerPointerMove string vec3
  | ScenePointerMove vec3

fun handle :: "event \<Rightarrow> session \<Rightarrow> session" where
  "handle StartPlacing s = startPlacing s"
| "handle (SceneClick uuid point) s = handleSceneClick uuid point s"
| "handle (EditAnnotation i t d) s = handleEditAnnotation i t d s"
| "handle (DeleteAnnotation i) s = handleDeleteAnnotation i s"
| "handle (MarkerPointerDown i) s = handleMarkerPointerDown i s"
| "handle (MarkerPointerUp i) s = handleMarkerPointerUp i s"
| "handle (MarkerPointerMove i point) s = handleMarkerPointerMove i point s"
| "handle (ScenePointerMove point) s = handleScenePointerMove point s"

definition has_id :: "string \<Rightarrow> session \<Rightarrow> bool" where
  "has_id i s = (i \<in> set (map id_ann (annotations s)))"

fun enabled :: "event \<Rightarrow> session \<Rightarrow> bool" where
  "enabled (MarkerPointerDown i) s = has_id i s"
| "enabled (MarkerPointerUp i) s = has_id i s"
| "enabled (MarkerPointerMove i point) s = has_id i s"
| "enabled e s = True"

text \<open>Events are handled one at a time, in arrival order; a disabled event is dropped.\<close>

fun run :: "event list \<Rightarrow> session \<Rightarrow> session" where
  "run [] s = s"
| "run (e # es) s = run es (if enabled e s then handle e s else s)"

inductive reachable :: "session \<Rightarrow> bool" where
  reachable_initial: "reachable initial"
| reachable_step: "reachable s \<Longrightarrow> enabled e s \<Longrightarrow> reachable (handle e s)"

section \<open>Lighting\<close>

text \<open>\<open>const isNight = timeOfDay >= 20 || timeOfDay < 6\<close> (App.tsx)\<close>

definition isNight :: "real \<Rightarrow> bool" where
  "isNight timeOfDay = (timeOfDay \<ge> 20 \<or> timeOfDay < 6)"

text \<open>
  The object \<open>getSunParams\<close> returns; its fields \<open>position\<close>, \<open>color\<close>, \<open>intensity\<close> carry
  the prefix \<open>sun_\<close> (\<open>position\<close> is a field of \<^typ>\<open>Annotation\<close> already).
\<close>

record SunParams =
  sun_position :: vec3
  sun_color :: string
  sun_intensity :: real

text \<open>
  \<open>Math.PI\<close>: the double \<open>0x400921FB54442D18\<close>, that is \<open>884279719003555 / 2^48\<close>
  (3.141592653589793115997963...), a little below \<open>\<pi>\<close>.
\<close>

definition Math_PI :: real where
  "Math_PI = 884279719003555 / 2 ^ 48"

definition getSunParams :: "real \<Rightarrow> SunParams" where
  "getSunParams timeOfDay =
     (let t = (timeOfDay - 6) / 12;
          angle = Math_PI * t;
          sunY = max (sin angle) 0.05 * 10;
          sunX = cos angle * 10;
          color = (if t < 0.2 \<or> t > 0.8 then ''#ffb347'' else ''#fffbe6'');
          intensity = (if t < 0 \<or> t > 1 then 0 else max (sin angle) 0)
      in \<lparr>sun_position = (sunX, sunY, 7.5), sun_color = color, sun_intensity = intensity\<rparr>)"

text \<open>A \<open><pointLight position intensity color distance />\<close> element.\<close>

record pointLight =
  pl_position :: vec3
  pl_intensity :: real
  pl_color :: string
  pl_distance :: real

text \<open>
  The lighting part of what \<open>ModelViewer\<close> renders from its props \<open>timeOfDay\<close>,
  \<open>nightLightsEnabled\<close> and \<open>isNight\<close>: the ambient light, the directional sun light,
  the sky angles, and the point lights of the block
  \<open>{isNight && nightLightsEnabled && (...)}\<close>, in source order.
\<close>

record sceneLights =
  ambientIntensity :: real
  ambientColor :: string
  sunParams :: SunParams
  elevation :: real
  azimuth :: real
  pointLights :: "pointLight list"

definition ModelViewer_lights :: "real \<Rightarrow> bool \<Rightarrow> bool \<Rightarrow> sceneLights" where
  "ModelViewer_lights timeOfDay nightLightsEnabled night =
     \<lparr>ambientIntensity = (if night then 0.15 else 0.4),
      ambientColor = (if night then ''#222233'' else ''#ffffff''),
      sunParams = getSunParams timeOfDay,
      elevation = (if night then 2 else 10 + max 0 (sin (Math_PI * (timeOfDay - 6) / 12)) * 80),
      azimuth = ((timeOfDay - 6) / 12) * 180,
      pointLights =
        (if night \<and> nightLightsEnabled
         then [\<lparr>pl_position = (0, 2, 0), pl_intensity = 0.7, pl_color = ''#aaf'', pl_distance = 8\<rparr>,
               \<lparr>pl_position = (2, 2, 2), pl_intensity = 0.5, pl_color = ''#fff'', pl_distance = 6\<rparr>,
               \<lparr>pl_position = (-2, 2, -2), pl_intensity = 0.5, pl_color = ''#fff'', pl_distance = 6\<rparr>]
         else [])\<rparr>"

text \<open>\<open>App\<close> computes \<open>isNight\<close> from its \<open>timeOfDay\<close> and passes all three props down.\<close>

definition App_lights :: "real \<Rightarrow> bool \<Rightarrow> sceneLights" where
  "App_lights timeOfDay nightLightsEnabled =
     ModelViewer_lights timeOfDay nightLightsEnabled (isNight timeOfDay)"

section \<open>Lighting: verified properties\<close>

text \<open>
  Claim C6. \<open>isNight\<close> holds exactly for the hours from 20 on and before 6: it is true
  at 20 and at 5.999, false at 19.999 and at 6.
\<close>

theorem isNight_boundaries:
  "isNight t = (t \<ge> 20 \<or> t < 6) \<and>
   isNight 20 \<and> \<not> isNight 19.999 \<and> \<not> isNight 6 \<and> isNight 5.999"
  by (simp add: isNight_def)

text \<open>
  Claim C7. The sun colour is the warm tone \<open>#ffb347\<close> exactly when \<open>t < 0.2\<close> or
  \<open>t > 0.8\<close> for \<open>t = (timeOfDay - 6) / 12\<close>, which is the same as \<open>timeOfDay < 8.4\<close> or
  \<open>timeOfDay > 15.6\<close>, and the neutral tone \<open>#fffbe6\<close> otherwise: warm at 6 and at 18,
  neutral at 12.
\<close>

theorem getSunParams_color_buckets:
  "sun_color (getSunParams timeOfDay) =
     (if (timeOfDay - 6) / 12 < 0.2 \<or> (timeOfDay - 6) / 12 > 0.8
      then ''#ffb347'' else ''#fffbe6'') \<and>
   sun_color (getSunParams timeOfDay) =
     (if timeOfDay < 8.4 \<or> timeOfDay > 15.6 then ''#ffb347'' else ''#fffbe6'') \<and>
   sun_color (getSunParams 6) = ''#ffb347'' \<and>
   sun_color (getSunParams 12) = ''#fffbe6'' \<and>
   sun_color (getSunParams 18) = ''#ffb347''"
proof -
  have by_t: "sun_color (getSunParams x) =
     (if (x - 6) / 12 < 0.2 \<or> (x - 6) / 12 > 0.8 then ''#ffb347'' else ''#fffbe6'')" for x
    by (simp add: getSunParams_def Let_def)
  have hours: "((x - 6) / 12 < 0.2 \<or> (x - 6) / 12 > 0.8) = (x < 8.4 \<or> x > (15.6::real))" for x
    by (auto simp: field_simps)
  have by_hour: "sun_color (getSunParams x) =
     (if x < 8.4 \<or> x > 15.6 then ''#ffb347'' else ''#fffbe6'')" for x
    unfolding by_t hours ..
  show ?thesis
    using by_t [of timeOfDay] by_hour [of timeOfDay] by_hour [of 6] by_hour [of 12] by_hour [of 18]
    by simp
qed

text \<open>The intensity field of \<open>getSunParams\<close>, with the \<open>let\<close>s unfolded.\<close>

lemma getSunParams_intensity:
  "sun_intensity (getSunParams x) =
     (if (x - 6) / 12 < 0 \<or> (x - 6) / 12 > 1 then 0
      else max (sin (Math_PI * ((x - 6) / 12))) 0)"
  by (simp add: getSunParams_def Let_def)

subsection \<open>The sine of \<open>Math.PI\<close>\<close>

text \<open>
  The partial sums of the alternating arctangent series enclose the arctangent: an even
  number of terms is below it, an odd number above.
\<close>

lemma arctan_partial_sums:
  fixes x :: real
  assumes "0 < x" "x \<le> 1"
  shows "(\<Sum>i<2 * n. (- 1) ^ i * (1 / real (i * 2 + 1) * x ^ (i * 2 + 1))) \<le> arctan x"
    and "arctan x \<le> (\<Sum>i<2 * n + 1. (- 1) ^ i * (1 / real (i * 2 + 1) * x ^ (i * 2 + 1)))"
proof -
  let ?a = "\<lambda>i. 1 / real (i * 2 + 1) * x ^ (i * 2 + 1)"
  from assms have small: "\<bar>x\<bar> \<le> 1" by simp
  from assms have first: "0 < ?a 0" by simp
  have "(\<Sum>i. (- 1) ^ i * ?a i)
      \<in> {\<Sum>i<2 * n. (- 1) ^ i * ?a i .. \<Sum>i<2 * n + 1. (- 1) ^ i * ?a i}"
    using summable_Leibniz(2) [OF zeroseq_arctan_series [OF small] monoseq_arctan_series [OF small]]
      first by blast
  then show "(\<Sum>i<2 * n. (- 1) ^ i * ?a i) \<le> arctan x"
    and "arctan x \<le> (\<Sum>i<2 * n + 1. (- 1) ^ i * ?a i)"
    by (simp_all add: arctan_series [OF small])
qed

text \<open>
  By Machin's formula, with 14 and 15 terms for \<open>arctan (1/5)\<close> and 5 and 4 terms for
  \<open>arctan (1/239)\<close>: \<open>\<pi>\<close> lies above \<open>Math.PI\<close> by between 1.22461e-16 and 1.22465e-16.
\<close>

lemma pi_above_Math_PI: "Math_PI + 122461 / 10 ^ 21 < pi"
proof -
  have a: "(\<Sum>i<2 * 7. (- 1) ^ i * (1 / real (i * 2 + 1) * (1 / 5) ^ (i * 2 + 1)))
      \<le> arctan (1 / 5)"
    by (rule arctan_partial_sums) simp_all
  have b: "arctan (1 / 239)
      \<le> (\<Sum>i<2 * 2 + 1. (- 1) ^ i * (1 / real (i * 2 + 1) * (1 / 239) ^ (i * 2 + 1)))"
    by (rule arctan_partial_sums) simp_all
  have p: "pi = 16 * arctan (1 / 5) - 4 * arctan (1 / 239)"
    using machin by simp
  from a b show ?thesis
    unfolding p Math_PI_def
    by (simp add: lessThan_nat_numeral lessThan_Suc power_divide)
qed

lemma pi_below_Math_PI: "pi < Math_PI + 122465 / 10 ^ 21"
proof -
  have a: "arctan (1 / 5)
      \<le> (\<Sum>i<2 * 7 + 1. (- 1) ^ i * (1 / real (i * 2 + 1) * (1 / 5) ^ (i * 2 + 1)))"
    by (rule arctan_partial_sums) simp_all
  have b: "(\<Sum>i<2 * 2. (- 1) ^ i * (1 / real (i * 2 + 1) * (1 / 239) ^ (i * 2 + 1)))
      \<le> arctan (1 / 239)"
    by (rule arctan_partial_sums) simp_all
  have p: "pi = 16 * arctan (1 / 5) - 4 * arctan (1 / 239)"
    using machin by simp
  from a b show ?thesis
    unfolding p Math_PI_def
    by (simp add: lessThan_nat_numeral lessThan_Suc power_divide)
qed

text \<open>
  So the sine of \<open>Math.PI\<close> is not 0 but about 1.2246e-16: it is the sine of the small
  angle \<open>\<pi> - Math.PI\<close>, which is below the angle and above it less a sixth of its cube.
  (The double that \<open>Math.sin(Math.PI)\<close> returns, 1.2246467991473532e-16, is in the same
  bounds.)
\<close>

lemma sin_Math_PI_bounds: "12246 / 10 ^ 20 < sin Math_PI \<and> sin Math_PI < 12247 / 10 ^ 20"
proof -
  define y where "y = pi - Math_PI"
  have y: "122461 / 10 ^ 21 < y" "y < 122465 / 10 ^ 21"
    using pi_above_Math_PI pi_below_Math_PI by (simp_all add: y_def)
  have s: "sin Math_PI = sin y"
    by (simp add: y_def)
  have up: "sin y \<le> y"
    using y by (intro sin_x_le_x) simp
  have "\<bar>sin y - (\<Sum>m<3. sin_coeff m * y ^ m)\<bar> \<le> inverse (fact 3) * \<bar>y\<bar> ^ 3"
    by (rule Maclaurin_sin_bound)
  then have "\<bar>sin y - y\<bar> \<le> y ^ 3 / 6"
    using y by (simp add: sin_coeff_def lessThan_nat_numeral lessThan_Suc fact_numeral)
  then have near: "y - y ^ 3 / 6 \<le> sin y"
    by linarith
  have "y ^ 3 \<le> (1 / 10 ^ 15) ^ 3"
    using y by (intro power_mono) simp_all
  then have cube: "y ^ 3 / 6 \<le> 1 / 10 ^ 45"
    by (simp add: power_divide)
  from s up near cube y show ?thesis by simp
qed

lemma getSunParams_intensity_18: "sun_intensity (getSunParams 18) = sin Math_PI"
  using sin_Math_PI_bounds by (simp add: getSunParams_intensity max_def)

subsection \<open>Sun intensity and night\<close>

text \<open>
  Claim C5, as stated, fails at the left end of \<open>[18, 20)\<close>: at \<open>timeOfDay = 18\<close>, a
  value of the slider, \<open>t\<close> is 1, the guard \<open>t < 0 || t > 1\<close> does not fire and the
  intensity is \<open>Math.max(Math.sin(Math.PI), 0)\<close>, which is about 1.2246e-16 and not 0.
\<close>

theorem sun_intensity_at_18_counterexample:
  "sun_intensity (getSunParams 18) \<noteq> 0 \<and>
   12246 / 10 ^ 20 < sun_intensity (getSunParams 18) \<and>
   sun_intensity (getSunParams 18) < 12247 / 10 ^ 20"
  using sin_Math_PI_bounds by (simp add: getSunParams_intensity_18)

text \<open>
  Claim C5, amended. For every \<open>timeOfDay\<close> in \<open>(18, 20)\<close> and in \<open>[0, 6)\<close> the sun
  intensity is exactly 0, while \<open>isNight\<close> is false on all of \<open>[18, 20)\<close>; at 19 the
  intensity is 0 and it is not night. (Only the left end 18 is taken out of the first
  interval.)
\<close>

theorem sun_intensity_zero_after_18_before_6:
  "((18 < timeOfDay \<and> timeOfDay < 20) \<or> (0 \<le> timeOfDay \<and> timeOfDay < 6)
      \<longrightarrow> sun_intensity (getSunParams timeOfDay) = 0) \<and>
   (18 \<le> timeOfDay \<and> timeOfDay < 20 \<longrightarrow> \<not> isNight timeOfDay) \<and>
   sun_intensity (getSunParams 19) = 0 \<and> \<not> isNight 19"
proof -
  have late: "sun_intensity (getSunParams x) = 0" if "18 < x" for x
  proof -
    from that have "(x - 6) / 12 > 1" by simp
    then show ?thesis by (simp add: getSunParams_intensity)
  qed
  have early: "sun_intensity (getSunParams x) = 0" if "x < 6" for x
    using that by (simp add: getSunParams_intensity)
  have dusk: "\<not> isNight x" if "18 \<le> x" "x < 20" for x
    using that by (simp add: isNight_def)
  show ?thesis
    using late [of timeOfDay] early [of timeOfDay] dusk [of timeOfDay] late [of 19] dusk [of 19]
    by auto
qed

text \<open>The theorem at 18.5 and 3, where the intensity is 0, and at 18, where it is not night.\<close>

theorem sun_intensity_zero_after_18_before_6_witness:
  "sun_intensity (getSunParams 18.5) = 0 \<and> \<not> isNight 18.5 \<and>
   sun_intensity (getSunParams 3) = 0 \<and> \<not> isNight 18"
  using sun_intensity_zero_after_18_before_6 [of "18.5"]
    sun_intensity_zero_after_18_before_6 [of 3]
    sun_intensity_zero_after_18_before_6 [of 18]
  by simp

text \<open>
  Claim C8. The point lights are rendered if and only if \<open>isNight && nightLightsEnabled\<close>,
  and then they are exactly three: one overhead at \<open>(0, 2, 0)\<close> in the cool blue \<open>#aaf\<close>
  and two flanking ones at \<open>(2, 2, 2)\<close> and \<open>(-2, 2, -2)\<close>. With \<open>nightLightsEnabled\<close> false
  there is none, and the sun, ambient and sky parameters are the same as with it true.
  At \<open>timeOfDay = 21\<close> it is night, with three lights when enabled and none when not.
\<close>

theorem artificial_lights_iff_night_and_enabled:
  "pointLights (App_lights timeOfDay nightLightsEnabled) =
     (if isNight timeOfDay \<and> nightLightsEnabled
      then [\<lparr>pl_position = (0, 2, 0), pl_intensity = 0.7, pl_color = ''#aaf'', pl_distance = 8\<rparr>,
            \<lparr>pl_position = (2, 2, 2), pl_intensity = 0.5, pl_color = ''#fff'', pl_distance = 6\<rparr>,
            \<lparr>pl_position = (-2, 2, -2), pl_intensity = 0.5, pl_color = ''#fff'', pl_distance = 6\<rparr>]
      else []) \<and>
   (pointLights (App_lights timeOfDay nightLightsEnabled) \<noteq> []) =
     (isNight timeOfDay \<and> nightLightsEnabled) \<and>
   length (pointLights (App_lights timeOfDay nightLightsEnabled)) =
     (if isNight timeOfDay \<and> nightLightsEnabled then 3 else 0) \<and>
   pointLights (App_lights timeOfDay False) = [] \<and>
   sunParams (App_lights timeOfDay False) = sunParams (App_lights timeOfDay True) \<and>
   ambientIntensity (App_lights timeOfDay False) = ambientIntensity (App_lights timeOfDay True) \<and>
   ambientColor (App_lights timeOfDay False) = ambientColor (App_lights timeOfDay True) \<and>
   elevation (App_lights timeOfDay False) = elevation (App_lights timeOfDay True) \<and>
   azimuth (App_lights timeOfDay False) = azimuth (App_lights timeOfDay True) \<and>
   isNight 21 \<and>
   length (pointLights (App_lights 21 True)) = 3 \<and>
   length (pointLights (App_lights 21 False)) = 0"
  by (simp add: App_lights_def ModelViewer_lights_def isNight_def)

section \<open>Annotations: verified properties\<close>

lemmas handler_defs =
  startPlacing_def handleSceneClick_def handleEditAnnotation_def handleDeleteAnnotation_def
  handleMarkerPointerDown_def handleMarkerPointerUp_def handleMarkerPointerMove_def
  handleScenePointerMove_def

text \<open>Every state an event sequence leads to from a reachable state is reachable.\<close>

lemma reachable_run: "reachable s \<Longrightarrow> reachable (run es s)"
proof (induction es arbitrary: s)
  case Nil
  then show ?case by simp
next
  case (Cons e es)
  show ?case
  proof (cases "enabled e s")
    case True
    with Cons.prems have "reachable (handle e s)" by (rule reachable_step)
    then have "reachable (run es (handle e s))" by (rule Cons.IH)
    with True show ?thesis by simp
  next
    case False
    with Cons.IH [OF Cons.prems] show ?thesis by simp
  qed
qed

subsection \<open>Placing\<close>




subsection \<open>Editing and deleting\<close>

text \<open>
  Claim C10. Editing keeps the length and the order of the list (the ids and the
  positions, place by place, are the same), leaves every record with another id as it
  was, changes only title and description of a record with the given id, and changes
  nothing at all when no record has the id. The other three state cells are untouched.
\<close>

theorem handleEditAnnotation_frame:
  "length (annotations (handleEditAnnotation i t d s)) = length (annotations s) \<and>
   map id_ann (annotations (handleEditAnnotation i t d s)) = map id_ann (annotations s) \<and>
   map position (annotations (handleEditAnnotation i t d s)) = map position (annotations s) \<and>
   (\<forall>k < length (annotations s).
      annotations (handleEditAnnotation i t d s) ! k =
        (if id_ann (annotations s ! k) = i
         then (annotations s ! k)\<lparr>title := t, description := d\<rparr>
         else annotations s ! k)) \<and>
   (\<not> has_id i s \<longrightarrow> handleEditAnnotation i t d s = s) \<and>
   placing (handleEditAnnotation i t d s) = placing s \<and>
   draggingId (handleEditAnnotation i t d s) = draggingId s \<and>
   dragOverPoint (handleEditAnnotation i t d s) = dragOverPoint s"
proof -
  let ?f = "\<lambda>ann. if id_ann ann = i then ann\<lparr>title := t, description := d\<rparr> else ann"
  have ids: "map id_ann (map ?f xs) = map id_ann xs" for xs :: "Annotation list"
    by (induction xs) auto
  have pos: "map position (map ?f xs) = map position xs" for xs :: "Annotation list"
    by (induction xs) auto
  have same: "map ?f xs = xs" if "i \<notin> set (map id_ann xs)" for xs :: "Annotation list"
    using that by (induction xs) auto
  have absent: "handleEditAnnotation i t d s = s" if "\<not> has_id i s"
    using that same [of "annotations s"] by (simp add: handleEditAnnotation_def has_id_def)
  show ?thesis
    using absent by (simp add: handleEditAnnotation_def ids pos)
qed

text \<open>
  Two records \<open>a\<close> and \<open>b\<close> are placed; editing \<open>a\<close> changes its title only, editing the
  absent \<open>c\<close> changes nothing.
\<close>

theorem handleEditAnnotation_frame_witness:
  "annotations (handleEditAnnotation ''a'' ''Door'' ''''
      (run [StartPlacing, SceneClick ''a'' (1, 2, 3),
            StartPlacing, SceneClick ''b'' (4, 5, 6)] initial)) =
     [\<lparr>id_ann = ''a'', position = (1, 2, 3), title = ''Door'', description = ''''\<rparr>,
      \<lparr>id_ann = ''b'', position = (4, 5, 6), title = ''New Annotation'', description = ''''\<rparr>] \<and>
   handleEditAnnotation ''c'' ''Door'' ''''
      (run [StartPlacing, SceneClick ''a'' (1, 2, 3),
            StartPlacing, SceneClick ''b'' (4, 5, 6)] initial) =
   run [StartPlacing, SceneClick ''a'' (1, 2, 3),
        StartPlacing, SceneClick ''b'' (4, 5, 6)] initial"
proof -
  let ?s = "run [StartPlacing, SceneClick ''a'' (1, 2, 3),
                 StartPlacing, SceneClick ''b'' (4, 5, 6)] initial"
  have a: "annotations ?s =
     [\<lparr>id_ann = ''a'', position = (1, 2, 3), title = ''New Annotation'', description = ''''\<rparr>,
      \<lparr>id_ann = ''b'', position = (4, 5, 6), title = ''New Annotation'', description = ''''\<rparr>]"
    by (simp add: initial_def handler_defs)
  have n: "\<not> has_id ''c'' ?s" unfolding has_id_def a by simp
  have e: "annotations (handleEditAnnotation ''a'' ''Door'' '''' ?s) =
     [\<lparr>id_ann = ''a'', position = (1, 2, 3), title = ''Door'', description = ''''\<rparr>,
      \<lparr>id_ann = ''b'', position = (4, 5, 6), title = ''New Annotation'', description = ''''\<rparr>]"
    using handleEditAnnotation_frame [of "''a''" "''Door''" "''''" ?s] a
    by (simp add: nth_equalityI less_Suc_eq handleEditAnnotation_def)
  from handleEditAnnotation_frame [of "''c''" "''Door''" "''''" ?s] n e show ?thesis by simp
qed

text \<open>
  Claim C2, as stated, fails: \<open>handleDeleteAnnotation\<close> is a handler of \<open>App\<close> that
  filters the list and nothing else, and the drag cells live in \<open>ModelViewer\<close>. Place
  \<open>a\<close>, press on its marker, move the pointer, delete \<open>a\<close>: the list is empty, and
  \<open>draggingId\<close> is still \<open>a\<close>, \<open>dragOverPoint\<close> still the last point.
\<close>

theorem delete_keeps_drag_state_counterexample:
  "reachable (run [StartPlacing, SceneClick ''a'' (1, 2, 3), MarkerPointerDown ''a'',
                   ScenePointerMove (4, 5, 6)] initial) \<and>
   has_id ''a'' (run [StartPlacing, SceneClick ''a'' (1, 2, 3), MarkerPointerDown ''a'',
                   ScenePointerMove (4, 5, 6)] initial) \<and>
   draggingId (run [StartPlacing, SceneClick ''a'' (1, 2, 3), MarkerPointerDown ''a'',
                   ScenePointerMove (4, 5, 6)] initial) = Some ''a'' \<and>
   annotations (handleDeleteAnnotation ''a''
     (run [StartPlacing, SceneClick ''a'' (1, 2, 3), MarkerPointerDown ''a'',
           ScenePointerMove (4, 5, 6)] initial)) = [] \<and>
   draggingId (handleDeleteAnnotation ''a''
     (run [StartPlacing, SceneClick ''a'' (1, 2, 3), MarkerPointerDown ''a'',
           ScenePointerMove (4, 5, 6)] initial)) = Some ''a'' \<and>
   dragOverPoint (handleDeleteAnnotation ''a''
     (run [StartPlacing, SceneClick ''a'' (1, 2, 3), MarkerPointerDown ''a'',
           ScenePointerMove (4, 5, 6)] initial)) = Some (4, 5, 6)"
proof -
  let ?s = "run [StartPlacing, SceneClick ''a'' (1, 2, 3), MarkerPointerDown ''a'',
                 ScenePointerMove (4, 5, 6)] initial"
  have r: "reachable ?s" by (rule reachable_run [OF reachable_initial])
  have v: "has_id ''a'' ?s" "draggingId ?s = Some ''a''"
    "annotations (handleDeleteAnnotation ''a'' ?s) = []"
    "draggingId (handleDeleteAnnotation ''a'' ?s) = Some ''a''"
    "dragOverPoint (handleDeleteAnnotation ''a'' ?s) = Some (4, 5, 6)"
    by (simp_all add: initial_def handler_defs has_id_def truthy_def)
  from r v show ?thesis by simp
qed

text \<open>
  Claim C2, amended. Deleting removes every record with the given id and keeps the
  others in their order, so no record with that id is left; \<open>draggingId\<close>,
  \<open>dragOverPoint\<close> and \<open>placing\<close> are as they were before.
\<close>

theorem handleDeleteAnnotation_removes_only:
  "annotations (handleDeleteAnnotation i s) = filter (\<lambda>ann. id_ann ann \<noteq> i) (annotations s) \<and>
   \<not> has_id i (handleDeleteAnnotation i s) \<and>
   draggingId (handleDeleteAnnotation i s) = draggingId s \<and>
   dragOverPoint (handleDeleteAnnotation i s) = dragOverPoint s \<and>
   placing (handleDeleteAnnotation i s) = placing s"
  by (auto simp: handleDeleteAnnotation_def has_id_def)

subsection \<open>Dragging\<close>

text \<open>
  Claim C1, as stated, fails: \<open>handleMarkerPointerDown\<close> has no guard. Place \<open>a\<close> and
  \<open>b\<close>, press on the marker of \<open>a\<close> and move the pointer, so that \<open>a\<close> is mid-drag with a
  preview point; a pointer-down on the marker of \<open>b\<close> then makes \<open>b\<close> the drag target
  and drops the preview point.
\<close>

theorem pointer_down_switches_target_counterexample:
  "reachable (run [StartPlacing, SceneClick ''a'' (0, 0, 0), StartPlacing,
                   SceneClick ''b'' (1, 1, 1), MarkerPointerDown ''a'',
                   ScenePointerMove (2, 2, 2)] initial) \<and>
   has_id ''b'' (run [StartPlacing, SceneClick ''a'' (0, 0, 0), StartPlacing,
                   SceneClick ''b'' (1, 1, 1), MarkerPointerDown ''a'',
                   ScenePointerMove (2, 2, 2)] initial) \<and>
   draggingId (run [StartPlacing, SceneClick ''a'' (0, 0, 0), StartPlacing,
                   SceneClick ''b'' (1, 1, 1), MarkerPointerDown ''a'',
                   ScenePointerMove (2, 2, 2)] initial) = Some ''a'' \<and>
   dragOverPoint (run [StartPlacing, SceneClick ''a'' (0, 0, 0), StartPlacing,
                   SceneClick ''b'' (1, 1, 1), MarkerPointerDown ''a'',
                   ScenePointerMove (2, 2, 2)] initial) = Some (2, 2, 2) \<and>
   draggingId (handleMarkerPointerDown ''b''
     (run [StartPlacing, SceneClick ''a'' (0, 0, 0), StartPlacing,
           SceneClick ''b'' (1, 1, 1), MarkerPointerDown ''a'',
           ScenePointerMove (2, 2, 2)] initial)) = Some ''b'' \<and>
   dragOverPoint (handleMarkerPointerDown ''b''
     (run [StartPlacing, SceneClick ''a'' (0, 0, 0), StartPlacing,
           SceneClick ''b'' (1, 1, 1), MarkerPointerDown ''a'',
           ScenePointerMove (2, 2, 2)] initial)) = None"
proof -
  let ?s = "run [StartPlacing, SceneClick ''a'' (0, 0, 0), StartPlacing,
                 SceneClick ''b'' (1, 1, 1), MarkerPointerDown ''a'',
                 ScenePointerMove (2, 2, 2)] initial"
  have r: "reachable ?s" by (rule reachable_run [OF reachable_initial])
  have v: "has_id ''b'' ?s" "draggingId ?s = Some ''a''" "dragOverPoint ?s = Some (2, 2, 2)"
    by (simp_all add: initial_def handler_defs has_id_def truthy_def)
  have w: "draggingId (handleMarkerPointerDown ''b'' ?s) = Some ''b''"
    "dragOverPoint (handleMarkerPointerDown ''b'' ?s) = None"
    by (simp_all add: handleMarkerPointerDown_def)
  from r v w show ?thesis by simp
qed

text \<open>
  Claim C1, amended. A pointer-down on the marker of \<open>b\<close> always makes \<open>b\<close> the drag
  target and resets the preview point to \<open>null\<close>, whether or not another drag is open;
  the list and \<open>placing\<close> are untouched.
\<close>

theorem handleMarkerPointerDown_always_retargets:
  "draggingId (handleMarkerPointerDown b s) = Some b \<and>
   dragOverPoint (handleMarkerPointerDown b s) = None \<and>
   annotations (handleMarkerPointerDown b s) = annotations s \<and>
   placing (handleMarkerPointerDown b s) = placing s"
  by (simp add: handleMarkerPointerDown_def)

text \<open>One handler step keeps: a preview point is there only while a drag target is.\<close>

lemma handle_preview_needs_target:
  assumes "dragOverPoint s \<noteq> None \<longrightarrow> draggingId s \<noteq> None"
  shows "dragOverPoint (handle e s) \<noteq> None \<longrightarrow> draggingId (handle e s) \<noteq> None"
  using assms
  by (cases e) (auto simp: handler_defs truthy_def Let_def split: option.splits if_splits)

text \<open>
  Claim C3, as stated, fails in one direction: after placing \<open>a\<close> and pressing on its
  marker the state is reachable, \<open>draggingId\<close> is \<open>a\<close> and \<open>dragOverPoint\<close> is \<open>null\<close>
  (the handler sets it to \<open>null\<close> itself).
\<close>

theorem drag_without_preview_counterexample:
  "reachable (run [StartPlacing, SceneClick ''a'' (1, 2, 3), MarkerPointerDown ''a''] initial) \<and>
   draggingId (run [StartPlacing, SceneClick ''a'' (1, 2, 3), MarkerPointerDown ''a''] initial)
     = Some ''a'' \<and>
   dragOverPoint (run [StartPlacing, SceneClick ''a'' (1, 2, 3), MarkerPointerDown ''a''] initial)
     = None"
proof -
  let ?s = "run [StartPlacing, SceneClick ''a'' (1, 2, 3), MarkerPointerDown ''a''] initial"
  have r: "reachable ?s" by (rule reachable_run [OF reachable_initial])
  have v: "draggingId ?s = Some ''a''" "dragOverPoint ?s = None"
    by (simp_all add: initial_def handler_defs has_id_def truthy_def)
  from r v show ?thesis by simp
qed

text \<open>
  Claim C3, amended. In every reachable state, \<open>dragOverPoint\<close> is non-null only if
  \<open>draggingId\<close> is non-null.
\<close>

theorem reachable_preview_needs_target:
  "reachable s \<Longrightarrow> dragOverPoint s \<noteq> None \<longrightarrow> draggingId s \<noteq> None"
proof (induction rule: reachable.induct)
  case reachable_initial
  show ?case by (simp add: initial_def)
next
  case (reachable_step s e)
  then show ?case using handle_preview_needs_target by blast
qed

text \<open>A reachable state with a preview point: \<open>a\<close> is placed, pressed and moved.\<close>

theorem reachable_preview_needs_target_witness:
  "reachable (run [StartPlacing, SceneClick ''a'' (1, 2, 3), MarkerPointerDown ''a'',
                   ScenePointerMove (4, 5, 6)] initial) \<and>
   dragOverPoint (run [StartPlacing, SceneClick ''a'' (1, 2, 3), MarkerPointerDown ''a'',
                   ScenePointerMove (4, 5, 6)] initial) = Some (4, 5, 6) \<and>
   draggingId (run [StartPlacing, SceneClick ''a'' (1, 2, 3), MarkerPointerDown ''a'',
                   ScenePointerMove (4, 5, 6)] initial) \<noteq> None"
proof -
  let ?s = "run [StartPlacing, SceneClick ''a'' (1, 2, 3), MarkerPointerDown ''a'',
                 ScenePointerMove (4, 5, 6)] initial"
  have r: "reachable ?s" by (rule reachable_run [OF reachable_initial])
  have v: "dragOverPoint ?s = Some (4, 5, 6)"
    by (simp add: initial_def handler_defs has_id_def truthy_def)
  from reachable_preview_needs_target [OF r] r v show ?thesis by simp
qed

text \<open>
  Claim C9. When a record is mid-drag and no preview point has been set, a pointer-up
  on a marker (the dragged one or any other) leaves the list, and so every committed
  position, as it was, and clears \<open>draggingId\<close> and \<open>dragOverPoint\<close>.
\<close>

theorem handleMarkerPointerUp_without_preview:
  "draggingId s = Some a \<Longrightarrow> dragOverPoint s = None \<Longrightarrow>
   annotations (handleMarkerPointerUp i s) = annotations s \<and>
   draggingId (handleMarkerPointerUp i s) = None \<and>
   dragOverPoint (handleMarkerPointerUp i s) = None \<and>
   placing (handleMarkerPointerUp i s) = placing s"
  by (simp add: handleMarkerPointerUp_def)

text \<open>Place \<open>a\<close>, press on its marker and release at once.\<close>

theorem handleMarkerPointerUp_without_preview_witness:
  "annotations (handleMarkerPointerUp ''a''
      (run [StartPlacing, SceneClick ''a'' (1, 2, 3), MarkerPointerDown ''a''] initial)) =
     [\<lparr>id_ann = ''a'', position = (1, 2, 3), title = ''New Annotation'', description = ''''\<rparr>] \<and>
   draggingId (handleMarkerPointerUp ''a''
      (run [StartPlacing, SceneClick ''a'' (1, 2, 3), MarkerPointerDown ''a''] initial)) = None \<and>
   dragOverPoint (handleMarkerPointerUp ''a''
      (run [StartPlacing, SceneClick ''a'' (1, 2, 3), MarkerPointerDown ''a''] initial)) = None"
proof -
  let ?s = "run [StartPlacing, SceneClick ''a'' (1, 2, 3), MarkerPointerDown ''a''] initial"
  have d: "draggingId ?s = Some ''a''" and p: "dragOverPoint ?s = None"
    and a: "annotations ?s =
      [\<lparr>id_ann = ''a'', position = (1, 2, 3), title = ''New Annotation'', description = ''''\<rparr>]"
    by (simp_all add: initial_def handler_defs has_id_def)
  from handleMarkerPointerUp_without_preview [OF d p, of "''a''"] a show ?thesis by simp
qed

end
